theory Spec2Isabelle
  imports Main "HOL-Library.Word" "HOL-Library.Multiset"
begin

unbundle bit_operations_syntax

section \<open>Machine types\<close>

type_synonym u64 = "64 word"
type_synonym byte = "8 word"
type_synonym bytes = "byte list"

section \<open>encoding/binary and the builtin copy\<close>

text \<open>
  \<^verbatim>\<open>binary.LittleEndian.PutUint64(b, v)\<close> starts with the bounds check
  \<^verbatim>\<open>_ = b[7]\<close>, which panics on a slice shorter than 8 bytes (\<open>None\<close>), and then
  writes \<^verbatim>\<open>b[0] = byte(v)\<close>, \<^verbatim>\<open>b[1] = byte(v >> 8)\<close>, ..., \<^verbatim>\<open>b[7] = byte(v >> 56)\<close>.
\<close>

definition le_bytes64 :: "u64 \<Rightarrow> bytes" where
  "le_bytes64 v =
     [ucast v, ucast (drop_bit 8 v), ucast (drop_bit 16 v), ucast (drop_bit 24 v),
      ucast (drop_bit 32 v), ucast (drop_bit 40 v), ucast (drop_bit 48 v),
      ucast (drop_bit 56 v)]"

definition PutUint64 :: "bytes \<Rightarrow> u64 \<Rightarrow> bytes option" where
  "PutUint64 b v = (if length b < 8 then None else Some (le_bytes64 v @ drop 8 b))"

text \<open>
  \<^verbatim>\<open>copy(dst, src)\<close> overwrites the first \<open>min (len dst) (len src)\<close> elements of
  \<open>dst\<close>; the result is the new content of \<open>dst\<close>.
\<close>

definition copy :: "'a list \<Rightarrow> 'a list \<Rightarrow> 'a list" where
  "copy dst src =
     take (min (length dst) (length src)) src @ drop (min (length dst) (length src)) dst"

text \<open>
  A slice expression \<^verbatim>\<open>a[lo:hi]\<close> is a view of the array: \<open>slice\<close> reads the view,
  \<open>slice_upd\<close> writes the new content of the view back into the array.
\<close>

definition slice :: "nat \<Rightarrow> nat \<Rightarrow> 'a list \<Rightarrow> 'a list" where
  "slice lo hi xs = take (hi - lo) (drop lo xs)"

definition slice_upd :: "nat \<Rightarrow> nat \<Rightarrow> 'a list \<Rightarrow> 'a list \<Rightarrow> 'a list" where
  "slice_upd lo hi xs ys = take lo xs @ ys @ drop hi xs"

section \<open>math/big\<close>

text \<open>
  \<^verbatim>\<open>(*big.Int).Bytes()\<close> is the big-endian encoding of the absolute value, without
  leading zero bytes (the empty slice for 0); \<^verbatim>\<open>SetBytes\<close> reads a big-endian
  unsigned integer. A \<^verbatim>\<open>*big.Int\<close> that may be nil is an \<open>int option\<close>.
\<close>

fun nat_be_bytes :: "nat \<Rightarrow> bytes" where
  "nat_be_bytes n = (if n = 0 then [] else nat_be_bytes (n div 256) @ [of_nat (n mod 256)])"

declare nat_be_bytes.simps [simp del]

definition big_Bytes :: "int \<Rightarrow> bytes" where
  "big_Bytes x = nat_be_bytes (nat \<bar>x\<bar>)"

definition big_SetBytes :: "bytes \<Rightarrow> int" where
  "big_SetBytes bs = int (foldl (\<lambda>acc b. acc * 256 + unat b) 0 bs)"

section \<open>Errors\<close>

text \<open>
  An error of the SQL driver, of the chain client or of an event parser is its message;
  the other constructors are the errors that the functions modelled here build with
  \<^verbatim>\<open>fmt.Errorf\<close>, carrying the values formatted into the message.
\<close>

datatype error =
    DriverError string
  | ClientError string
  | DecodeError string
  | ErrProcessIDNotExist u64
  | ErrParsingEventLog string u64 bytes error
  | ErrStoringNewProcess bytes error
  | ErrUpdatingProcessStatus bytes error
  | ErrUnrecognizedEventLog nat
  | ErrCensusClosed
  | RuntimePanic

text \<open>An error is domain-specific when this repository built it, and generic when it is
  the driver's error returned as it came (\<^verbatim>\<open>return err\<close>).\<close>

fun domain_specific :: "error \<Rightarrow> bool" where
  "domain_specific (DriverError _) = False"
| "domain_specific (ClientError _) = False"
| "domain_specific RuntimePanic = False"
| "domain_specific _ = True"

section \<open>The relational store\<close>

datatype ProcessStatus = ProcessStatusOn | ProcessStatusFrozen | ProcessStatusContractClosed

record Process =
  ID :: u64
  CensusRoot :: bytes
  CensusSize :: u64
  EthBlockNum :: u64
  ResPubStartBlock :: u64
  ResPubWindow :: u64
  MinParticipation :: byte
  Type :: byte
  Status :: ProcessStatus

text \<open>One row of the table \<^verbatim>\<open>votepackages\<close>, with the columns of the INSERT statement
  (\<^verbatim>\<open>insertedDatetime\<close>, the wall-clock time of the insertion, is never read back and is
  left out).\<close>

record 'pk votepackage_row =
  col_id :: bytes
  col_indx :: u64
  col_publicKey :: 'pk
  col_weight :: bytes
  col_merkleproof :: bytes
  col_signature :: bytes
  col_vote :: bytes
  col_processID :: u64

record 'pk SQLite =
  dbClosed :: bool
  processes :: "Process list"
  votepackages :: "'pk votepackage_row list"
  lastSyncBlockNum :: u64

text \<open>\<^verbatim>\<open>r.db.Prepare\<close> and \<^verbatim>\<open>r.db.Query\<close> fail on a closed handle.\<close>

definition db_Prepare :: "'pk SQLite \<Rightarrow> error option" where
  "db_Prepare r = (if dbClosed r then Some (DriverError ''sql: database is closed'') else None)"

text \<open>
  Modelled from the spec: the schema of the table \<^verbatim>\<open>votepackages\<close> is not among the
  sources. The column \<^verbatim>\<open>id\<close> is UNIQUE (the comment in \<^verbatim>\<open>StoreVotePackage\<close>) and
  \<^verbatim>\<open>processID\<close> references the table of processes (the message
  \<^verbatim>\<open>FOREIGN KEY constraint failed\<close> that \<^verbatim>\<open>StoreVotePackage\<close> tests for). The engine checks
  uniqueness while it inserts the row and the foreign key at the end of the statement;
  a statement that fails leaves the table as it was.
\<close>

definition insert_votepackage ::
  "'pk votepackage_row \<Rightarrow> 'pk SQLite \<Rightarrow> error + 'pk SQLite" where
  "insert_votepackage row r =
     (if col_id row \<in> set (map col_id (votepackages r))
      then Inl (DriverError ''UNIQUE constraint failed: votepackages.id'')
      else if col_processID row \<notin> set (map ID (processes r))
      then Inl (DriverError ''FOREIGN KEY constraint failed'')
      else Inr (r\<lparr>votepackages := votepackages r @ [row]\<rparr>))"

text \<open>
  \<^verbatim>\<open>database/sql\<close> converts the arguments of a statement before the driver sees them,
  and its default converter refuses a \<^verbatim>\<open>uint64\<close> with the high bit set; the error names
  the ordinal of the argument. \<^verbatim>\<open>StoreVotePackage\<close> passes the census index as the second
  argument and the process identifier as the eighth; the other arguments are byte
  slices, and the public key, which converts itself.
\<close>

definition uint64_not_supported :: "string \<Rightarrow> error" where
  "uint64_not_supported ordinal =
     DriverError (''sql: converting argument $'' @ ordinal @
                  '' type: uint64 values with high bit set are not supported'')"

definition convert_uint64 :: "string \<Rightarrow> u64 \<Rightarrow> error option" where
  "convert_uint64 ordinal v =
     (if 2 ^ 63 \<le> v then Some (uint64_not_supported ordinal) else None)"

definition stmt_Exec :: "'pk votepackage_row \<Rightarrow> 'pk SQLite \<Rightarrow> error + 'pk SQLite" where
  "stmt_Exec row r =
     (case convert_uint64 ''2'' (col_indx row) of
        Some err \<Rightarrow> Inl err
      | None \<Rightarrow>
          (case convert_uint64 ''8'' (col_processID row) of
             Some err \<Rightarrow> Inl err
           | None \<Rightarrow> insert_votepackage row r))"

section \<open>Vote packages (db/votepackages.go)\<close>

record 'pk CensusProof =
  Index :: u64
  PublicKey :: 'pk
  Weight :: "int option"
  MerkleProof :: bytes

record 'pk VotePackage =
  Signature :: bytes
  CensusProof :: "'pk CensusProof"
  Vote :: bytes

text \<open>
  Lines 44 to 48 of \<^verbatim>\<open>StoreVotePackage\<close>: the 48 bytes of the record id. \<open>Compress\<close> is
  \<^verbatim>\<open>babyjub.PublicKey.Compress\<close> of go-iden3-crypto, a parameter here; it returns a
  \<^verbatim>\<open>[32]byte\<close>.
\<close>

definition votePackageID :: "('pk \<Rightarrow> bytes) \<Rightarrow> u64 \<Rightarrow> 'pk \<Rightarrow> u64 \<Rightarrow> bytes option" where
  "votePackageID Compress index pk processID =
     (let id0 = replicate 48 0 in
      case PutUint64 (slice 0 48 id0) index of
        None \<Rightarrow> None
      | Some s1 \<Rightarrow>
          let id1 = slice_upd 0 48 id0 s1;
              pubKComp = Compress pk;
              id2 = slice_upd 8 40 id1 (copy (slice 8 40 id1) pubKComp)
          in (case PutUint64 (slice 40 48 id2) processID of
                None \<Rightarrow> None
              | Some s3 \<Rightarrow> Some (slice_upd 40 48 id2 s3)))"

definition StoreVotePackage ::
  "('pk \<Rightarrow> bytes) \<Rightarrow> u64 \<Rightarrow> 'pk VotePackage \<Rightarrow> 'pk SQLite \<Rightarrow> error option \<times> 'pk SQLite" where
  "StoreVotePackage Compress processID vote r =
     (case db_Prepare r of
        Some err \<Rightarrow> (Some err, r)
      | None \<Rightarrow>
          let weight = (case Weight (CensusProof vote) of None \<Rightarrow> 0 | Some w \<Rightarrow> w) in
          (case votePackageID Compress (Index (CensusProof vote))
                  (PublicKey (CensusProof vote)) processID of
             None \<Rightarrow> (Some RuntimePanic, r)
           | Some vid \<Rightarrow>
               (case stmt_Exec
                       \<lparr>col_id = vid, col_indx = Index (CensusProof vote),
                        col_publicKey = PublicKey (CensusProof vote),
                        col_weight = big_Bytes weight,
                        col_merkleproof = MerkleProof (CensusProof vote),
                        col_signature = Signature vote, col_vote = Vote vote,
                        col_processID = processID\<rparr> r of
                  Inl err \<Rightarrow>
                    (if err = DriverError ''FOREIGN KEY constraint failed''
                     then (Some (ErrProcessIDNotExist processID), r)
                     else (Some err, r))
                | Inr r' \<Rightarrow> (None, r'))))"

text \<open>
  \<^verbatim>\<open>ReadVotePackagesByProcessID\<close>: the rows \<^verbatim>\<open>WHERE processID = ? ORDER BY indx ASC\<close>
  (a stable sort of the rows in insertion order stands for the engine's; the process
  identifier is the first argument of the query and is converted as above), each scanned
  into a \<^verbatim>\<open>VotePackage\<close>: the weight through \<^verbatim>\<open>SetBytes\<close>, the signature copied into a
  zeroed \<^verbatim>\<open>[64]byte\<close>.
\<close>

definition select_votepackages :: "u64 \<Rightarrow> 'pk SQLite \<Rightarrow> 'pk votepackage_row list" where
  "select_votepackages processID r =
     sort_key col_indx (filter (\<lambda>row. col_processID row = processID) (votepackages r))"

definition scan_votepackage :: "'pk votepackage_row \<Rightarrow> 'pk VotePackage" where
  "scan_votepackage row =
     \<lparr>Signature = copy (replicate 64 0) (col_signature row),
      CensusProof = \<lparr>Index = col_indx row, PublicKey = col_publicKey row,
                     Weight = Some (big_SetBytes (col_weight row)),
                     MerkleProof = col_merkleproof row\<rparr>,
      Vote = col_vote row\<rparr>"

definition ReadVotePackagesByProcessID ::
  "u64 \<Rightarrow> 'pk SQLite \<Rightarrow> error + 'pk VotePackage list" where
  "ReadVotePackagesByProcessID processID r =
     (case db_Prepare r of
        Some err \<Rightarrow> Inl err
      | None \<Rightarrow>
          (case convert_uint64 ''1'' processID of
             Some err \<Rightarrow> Inl err
           | None \<Rightarrow> Inr (map scan_votepackage (select_votepackages processID r))))"

section \<open>The persistence ports used by the synchronization (package db)\<close>

text \<open>
  Modelled from the spec: \<^verbatim>\<open>StoreProcess\<close>, \<^verbatim>\<open>UpdateProcessStatus\<close>,
  \<^verbatim>\<open>FrozeProcessesByCurrentBlockNum\<close> and \<^verbatim>\<open>GetLastSyncBlockNum\<close> belong to this
  repository but are not among the sources; \<^verbatim>\<open>eth.go\<close> only calls them. Following sections 3, 4.1, 5 and 6 of the spec:
  \<^verbatim>\<open>StoreProcess\<close> creates the process record, with status On, and fails if the id
  exists; \<^verbatim>\<open>UpdateProcessStatus\<close> sets the status of the process with the given id;
  \<^verbatim>\<open>FrozeProcessesByCurrentBlockNum\<close> is the conditional bulk transition of the processes
  that are On and whose results-publication start block has been reached;
  \<^verbatim>\<open>GetLastSyncBlockNum\<close> reads the checkpoint. Each of them fails on a closed handle,
  as \<^verbatim>\<open>StoreVotePackage\<close> does, and none of them writes the checkpoint.
\<close>

definition StoreProcess ::
  "u64 \<Rightarrow> bytes \<Rightarrow> u64 \<Rightarrow> u64 \<Rightarrow> u64 \<Rightarrow> u64 \<Rightarrow> byte \<Rightarrow> byte \<Rightarrow> 'pk SQLite
     \<Rightarrow> error option \<times> 'pk SQLite" where
  "StoreProcess pid censusRoot censusSize ethBlockNum resPubStartBlock resPubWindow
       minParticipation typ r =
     (case db_Prepare r of
        Some err \<Rightarrow> (Some err, r)
      | None \<Rightarrow>
          if pid \<in> set (map ID (processes r))
          then (Some (DriverError ''UNIQUE constraint failed: processes.id''), r)
          else (None, r\<lparr>processes := processes r @
                  [\<lparr>ID = pid, CensusRoot = censusRoot, CensusSize = censusSize,
                    EthBlockNum = ethBlockNum, ResPubStartBlock = resPubStartBlock,
                    ResPubWindow = resPubWindow, MinParticipation = minParticipation,
                    Type = typ, Status = ProcessStatusOn\<rparr>]\<rparr>))"

definition UpdateProcessStatus ::
  "u64 \<Rightarrow> ProcessStatus \<Rightarrow> 'pk SQLite \<Rightarrow> error option \<times> 'pk SQLite" where
  "UpdateProcessStatus pid status r =
     (case db_Prepare r of
        Some err \<Rightarrow> (Some err, r)
      | None \<Rightarrow>
          (None, r\<lparr>processes :=
                    map (\<lambda>p. if ID p = pid then p\<lparr>Status := status\<rparr> else p) (processes r)\<rparr>))"

definition FrozeProcessesByCurrentBlockNum ::
  "u64 \<Rightarrow> 'pk SQLite \<Rightarrow> error option \<times> 'pk SQLite" where
  "FrozeProcessesByCurrentBlockNum blockNum r =
     (case db_Prepare r of
        Some err \<Rightarrow> (Some err, r)
      | None \<Rightarrow>
          (None, r\<lparr>processes :=
                    map (\<lambda>p. if Status p = ProcessStatusOn \<and> ResPubStartBlock p \<le> blockNum
                             then p\<lparr>Status := ProcessStatusFrozen\<rparr> else p) (processes r)\<rparr>))"

definition GetLastSyncBlockNum :: "'pk SQLite \<Rightarrow> error + u64" where
  "GetLastSyncBlockNum r =
     (case db_Prepare r of Some err \<Rightarrow> Inl err | None \<Rightarrow> Inr (lastSyncBlockNum r))"


text \<open>The status recorded for a process id, if the process exists.\<close>

definition process_status :: "'pk SQLite \<Rightarrow> u64 \<Rightarrow> ProcessStatus option" where
  "process_status r pid = map_option Status (find (\<lambda>p. ID p = pid) (processes r))"

section \<open>Event synchronization (eth/eth.go)\<close>

definition eventNewProcessLen :: nat where "eventNewProcessLen = 288"
definition eventResultPublishedLen :: nat where "eventResultPublishedLen = 160"
definition eventProcessClosedLen :: nat where "eventProcessClosedLen = 96"

text \<open>The fields of go-ethereum's \<^verbatim>\<open>types.Log\<close> and \<^verbatim>\<open>types.Header\<close> that the code reads.\<close>

record Log =
  BlockNumber :: u64
  Data :: bytes

record Header =
  Number :: int

text \<open>\<^verbatim>\<open>(*big.Int).Uint64()\<close>: the low 64 bits of the absolute value.\<close>

definition big_Uint64 :: "int \<Rightarrow> u64" where
  "big_Uint64 x = of_nat (nat \<bar>x\<bar>)"

text \<open>
  The decoded events. Their declarations and the three parsers are not among the
  sources: the records have the fields that \<^verbatim>\<open>processEventLog\<close> reads (for the
  published result, the two parts that the table of section 4.1 of the spec names), and
  the parsers are a parameter of the model.
\<close>

record eventNewProcess =
  np_ProcessID :: u64
  np_CensusRoot :: bytes
  np_CensusSize :: u64
  np_ResPubStartBlock :: u64
  np_ResPubWindow :: u64
  np_MinParticipation :: byte
  np_Type :: byte

record eventResultPublished =
  rp_ProcessID :: u64
  rp_Result :: bytes

record eventProcessClosed =
  pc_ProcessID :: u64

datatype event =
    NewProcess eventNewProcess
  | ResultPublished eventResultPublished
  | ProcessClosed eventProcessClosed

record parsers =
  parseEventNewProcess :: "bytes \<Rightarrow> error + eventNewProcess"
  parseEventResultPublished :: "bytes \<Rightarrow> error + eventResultPublished"
  parseEventProcessClosed :: "bytes \<Rightarrow> error + eventProcessClosed"

text \<open>
  What the node writes: \<^verbatim>\<open>log.Error\<close>, the three \<^verbatim>\<open>log.Debugf\<close> formats, and the
  \<^verbatim>\<open>fmt.Printf\<close> of an unrecognized event log. The state of the client is the database
  and the lines written so far.
\<close>

datatype log_line =
    LogError error
  | LogDebugEvent u64 event
  | LogDebugNewBlock u64
  | LogDebugSyncHistory u64 int
  | Stdout u64 bytes

record 'pk Client =
  db :: "'pk SQLite"
  logged :: "log_line list"

definition write_line :: "log_line \<Rightarrow> 'pk Client \<Rightarrow> 'pk Client" where
  "write_line l c = c\<lparr>logged := logged c @ [l]\<rparr>"

definition processEventLog ::
  "parsers \<Rightarrow> Log \<Rightarrow> 'pk Client \<Rightarrow> error option \<times> 'pk Client" where
  "processEventLog P eventLog c =
     (let l = length (Data eventLog) in
      if l = eventNewProcessLen then
        (case parseEventNewProcess P (Data eventLog) of
           Inl err \<Rightarrow>
             (Some (ErrParsingEventLog ''newProcess'' (BlockNumber eventLog) (Data eventLog) err), c)
         | Inr e \<Rightarrow>
             let c1 = write_line (LogDebugEvent (BlockNumber eventLog) (NewProcess e)) c in
             (case StoreProcess (np_ProcessID e) (np_CensusRoot e) (np_CensusSize e)
                     (BlockNumber eventLog) (np_ResPubStartBlock e) (np_ResPubWindow e)
                     (np_MinParticipation e) (np_Type e) (db c1) of
                (Some err, r) \<Rightarrow>
                  (Some (ErrStoringNewProcess (Data eventLog) err), c1\<lparr>db := r\<rparr>)
              | (None, r) \<Rightarrow> (None, c1\<lparr>db := r\<rparr>)))
      else if l = eventResultPublishedLen then
        (case parseEventResultPublished P (Data eventLog) of
           Inl err \<Rightarrow>
             (Some (ErrParsingEventLog ''resultPublished'' (BlockNumber eventLog)
                      (Data eventLog) err), c)
         | Inr e \<Rightarrow>
             (None, write_line (LogDebugEvent (BlockNumber eventLog) (ResultPublished e)) c))
      else if l = eventProcessClosedLen then
        (case parseEventProcessClosed P (Data eventLog) of
           Inl err \<Rightarrow>
             (Some (ErrParsingEventLog ''processClosed'' (BlockNumber eventLog)
                      (Data eventLog) err), c)
         | Inr e \<Rightarrow>
             let c1 = write_line (LogDebugEvent (BlockNumber eventLog) (ProcessClosed e)) c in
             (case UpdateProcessStatus (pc_ProcessID e) ProcessStatusContractClosed (db c1) of
                (Some err, r) \<Rightarrow>
                  (Some (ErrUpdatingProcessStatus (Data eventLog) err), c1\<lparr>db := r\<rparr>)
              | (None, r) \<Rightarrow> (None, c1\<lparr>db := r\<rparr>)))
      else
        (Some (ErrUnrecognizedEventLog l),
         write_line (Stdout (BlockNumber eventLog) (Data eventLog)) c))"

text \<open>
  \<^verbatim>\<open>syncEventsHistory\<close>: the answer of the chain client to \<^verbatim>\<open>FilterLogs\<close> is the
  parameter \<open>FilterLogs\<close>; the loop over the logs writes the error of an event log and goes
  on with the next one.
\<close>

fun syncEventsHistory_loop :: "parsers \<Rightarrow> Log list \<Rightarrow> 'pk Client \<Rightarrow> 'pk Client" where
  "syncEventsHistory_loop P [] c = c"
| "syncEventsHistory_loop P (eventLog # logs) c =
     (case processEventLog P eventLog c of
        (Some err, c') \<Rightarrow> syncEventsHistory_loop P logs (write_line (LogError err) c')
      | (None, c') \<Rightarrow> syncEventsHistory_loop P logs c')"

definition syncEventsHistory ::
  "parsers \<Rightarrow> (int \<Rightarrow> int \<Rightarrow> error + Log list) \<Rightarrow> int \<Rightarrow> int \<Rightarrow> 'pk Client
     \<Rightarrow> error option \<times> 'pk Client" where
  "syncEventsHistory P FilterLogs startBlock endBlock c =
     (case FilterLogs startBlock endBlock of
        Inl err \<Rightarrow> (Some err, write_line (LogError err) c)
      | Inr logs \<Rightarrow> (None, syncEventsHistory_loop P logs c))"

text \<open>
  \<^verbatim>\<open>syncHistory\<close>: \<open>HeaderByNumber\<close> is the client's answer with the current header;
  \<^verbatim>\<open>int64(startBlock)\<close> reads the 64 bits as a signed number.
\<close>

definition syncHistory_froze :: "u64 \<Rightarrow> 'pk Client \<Rightarrow> error option \<times> 'pk Client" where
  "syncHistory_froze blockNum c =
     (case FrozeProcessesByCurrentBlockNum blockNum (db c) of
        (Some err, r) \<Rightarrow> (Some err, write_line (LogError err) (c\<lparr>db := r\<rparr>))
      | (None, r) \<Rightarrow> (None, c\<lparr>db := r\<rparr>))"

definition syncHistory ::
  "parsers \<Rightarrow> (error + Header) \<Rightarrow> (int \<Rightarrow> int \<Rightarrow> error + Log list) \<Rightarrow> u64 \<Rightarrow> 'pk Client
     \<Rightarrow> error option \<times> 'pk Client" where
  "syncHistory P HeaderByNumber FilterLogs startBlock c =
     (case HeaderByNumber of
        Inl err \<Rightarrow> (Some err, write_line (LogError err) c)
      | Inr header \<Rightarrow>
          let currBlockNum = Number header;
              c1 = write_line (LogDebugSyncHistory startBlock currBlockNum) c in
          (case syncEventsHistory P FilterLogs (sint startBlock) currBlockNum c1 of
             (Some err, c2) \<Rightarrow> (Some err, write_line (LogError err) c2)
           | (None, c2) \<Rightarrow> syncHistory_froze (big_Uint64 currBlockNum) c2))"

text \<open>
  The two live loops never return once subscribed. What a subscription delivers is
  either an error of the subscription or a value of its channel; the body of the
  \<^verbatim>\<open>select\<close> is one step, and a loop is run over the messages received so far.
\<close>

datatype 'a sub_msg = SubErr error | Msg 'a

definition syncBlocksLive_step ::
  "(u64 \<Rightarrow> 'pk SQLite \<Rightarrow> error option \<times> 'pk SQLite) \<Rightarrow> Header sub_msg \<Rightarrow> 'pk Client
     \<Rightarrow> 'pk Client" where
  "syncBlocksLive_step UpdateLastSyncBlockNum m c =
     (case m of
        SubErr err \<Rightarrow> write_line (LogError err) c
      | Msg header \<Rightarrow>
          let c1 = write_line (LogDebugNewBlock (big_Uint64 (Number header))) c in
          (case UpdateLastSyncBlockNum (big_Uint64 (Number header)) (db c1) of
             (Some err, r) \<Rightarrow> write_line (LogError err) (c1\<lparr>db := r\<rparr>)
           | (None, r) \<Rightarrow> c1\<lparr>db := r\<rparr>))"

definition syncEventsLive_step :: "parsers \<Rightarrow> Log sub_msg \<Rightarrow> 'pk Client \<Rightarrow> 'pk Client" where
  "syncEventsLive_step P m c =
     (case m of
        SubErr err \<Rightarrow> write_line (LogError err) c
      | Msg vLog \<Rightarrow>
          (case processEventLog P vLog c of
             (Some err, c') \<Rightarrow> write_line (LogError err) c'
           | (None, c') \<Rightarrow> c'))"

fun syncBlocksLive_loop ::
  "(u64 \<Rightarrow> 'pk SQLite \<Rightarrow> error option \<times> 'pk SQLite) \<Rightarrow> Header sub_msg list \<Rightarrow> 'pk Client
     \<Rightarrow> 'pk Client" where
  "syncBlocksLive_loop UpdateLastSyncBlockNum [] c = c"
| "syncBlocksLive_loop UpdateLastSyncBlockNum (m # ms) c =
     syncBlocksLive_loop UpdateLastSyncBlockNum ms (syncBlocksLive_step UpdateLastSyncBlockNum m c)"

fun syncEventsLive_loop :: "parsers \<Rightarrow> Log sub_msg list \<Rightarrow> 'pk Client \<Rightarrow> 'pk Client" where
  "syncEventsLive_loop P [] c = c"
| "syncEventsLive_loop P (m # ms) c = syncEventsLive_loop P ms (syncEventsLive_step P m c)"

text \<open>
  \<^verbatim>\<open>syncBlocksLive\<close> and \<^verbatim>\<open>syncEventsLive\<close> return only when the subscription fails
  (the first parameter is the error of \<^verbatim>\<open>SubscribeNewHead\<close> or
  \<^verbatim>\<open>SubscribeFilterLogs\<close>, if any); otherwise the result is \<open>None\<close>, for a loop that is still
  running, with the state after the messages received so far.
\<close>

definition syncBlocksLive ::
  "(u64 \<Rightarrow> 'pk SQLite \<Rightarrow> error option \<times> 'pk SQLite) \<Rightarrow> error option
     \<Rightarrow> Header sub_msg list \<Rightarrow> 'pk Client \<Rightarrow> error option \<times> 'pk Client" where
  "syncBlocksLive UpdateLastSyncBlockNum SubscribeNewHead msgs c =
     (case SubscribeNewHead of
        Some err \<Rightarrow> (Some err, write_line (LogError err) c)
      | None \<Rightarrow> (None, syncBlocksLive_loop UpdateLastSyncBlockNum msgs c))"

definition syncEventsLive ::
  "parsers \<Rightarrow> error option \<Rightarrow> Log sub_msg list \<Rightarrow> 'pk Client \<Rightarrow> error option \<times> 'pk Client" where
  "syncEventsLive P SubscribeFilterLogs msgs c =
     (case SubscribeFilterLogs of
        Some err \<Rightarrow> (Some err, write_line (LogError err) c)
      | None \<Rightarrow> (None, syncEventsLive_loop P msgs c))"

text \<open>
  \<^verbatim>\<open>Sync\<close> runs the live log loop in a goroutine of its own, beside the backfill and then
  the live header loop. The goroutines share the database only, and each iteration of a
  loop makes at most one call of the database, so an execution is a sequence of such
  iterations in the order in which they reach the database.
\<close>

datatype sync_action =
    BlockHeader "Header sub_msg"
  | EventLog "Log sub_msg"
  | BackfillLog Log
  | BackfillFroze u64

fun sync_step ::
  "parsers \<Rightarrow> (u64 \<Rightarrow> 'pk SQLite \<Rightarrow> error option \<times> 'pk SQLite) \<Rightarrow> sync_action \<Rightarrow> 'pk Client
     \<Rightarrow> 'pk Client" where
  "sync_step P upd (BlockHeader m) c = syncBlocksLive_step upd m c"
| "sync_step P upd (EventLog m) c = syncEventsLive_step P m c"
| "sync_step P upd (BackfillLog eventLog) c = syncEventsHistory_loop P [eventLog] c"
| "sync_step P upd (BackfillFroze blockNum) c = snd (syncHistory_froze blockNum c)"

fun sync_run ::
  "parsers \<Rightarrow> (u64 \<Rightarrow> 'pk SQLite \<Rightarrow> error option \<times> 'pk SQLite) \<Rightarrow> sync_action list
     \<Rightarrow> 'pk Client \<Rightarrow> 'pk Client" where
  "sync_run P upd [] c = c"
| "sync_run P upd (a # as) c = sync_run P upd as (sync_step P upd a c)"


section \<open>The census (package census)\<close>











text \<open>Two states of the client with the same checkpoint, on the same handle.\<close>

definition unchanged_checkpoint :: "'pk Client \<Rightarrow> 'pk Client \<Rightarrow> bool" where
  "unchanged_checkpoint c c' \<longleftrightarrow>
     lastSyncBlockNum (db c') = lastSyncBlockNum (db c) \<and> dbClosed (db c') = dbClosed (db c)"

section \<open>Sequences of calls, and what the proofs speak about\<close>

text \<open>A caller that stores vote packages one after the other (\<open>store_all\<close>), and the
  calls among them that returned nil (\<open>accepted\<close>).\<close>

fun store_all :: "('pk \<Rightarrow> bytes) \<Rightarrow> (u64 \<times> 'pk VotePackage) list \<Rightarrow> 'pk SQLite \<Rightarrow> 'pk SQLite" where
  "store_all Compress [] r = r"
| "store_all Compress ((processID, vote) # calls) r =
     store_all Compress calls (snd (StoreVotePackage Compress processID vote r))"

fun accepted :: "('pk \<Rightarrow> bytes) \<Rightarrow> (u64 \<times> 'pk VotePackage) list \<Rightarrow> 'pk SQLite \<Rightarrow> (u64 \<times> 'pk VotePackage) list" where
  "accepted Compress [] r = []"
| "accepted Compress ((processID, vote) # calls) r =
     (case StoreVotePackage Compress processID vote r of
        (None, r') \<Rightarrow> (processID, vote) # accepted Compress calls r'
      | (Some err, r') \<Rightarrow> accepted Compress calls r')"

text \<open>What \<^verbatim>\<open>copy(id[8:40], pubKComp[:])\<close> leaves in bytes 8 to 39 of the zeroed id.\<close>

definition pad32 :: "bytes \<Rightarrow> bytes" where
  "pad32 xs = take 32 (xs @ replicate 32 0)"

text \<open>The row that \<^verbatim>\<open>StoreVotePackage\<close> hands to the INSERT statement, and the vote
  package that \<^verbatim>\<open>ReadVotePackagesByProcessID\<close> scans from it.\<close>

definition votepackage_row_of :: "('pk \<Rightarrow> bytes) \<Rightarrow> u64 \<Rightarrow> 'pk VotePackage \<Rightarrow> 'pk votepackage_row" where
  "votepackage_row_of C pid v =
     \<lparr>col_id = le_bytes64 (Index (CensusProof v)) @ pad32 (C (PublicKey (CensusProof v)))
                @ le_bytes64 pid,
      col_indx = Index (CensusProof v), col_publicKey = PublicKey (CensusProof v),
      col_weight = big_Bytes (case Weight (CensusProof v) of None \<Rightarrow> 0 | Some w \<Rightarrow> w),
      col_merkleproof = MerkleProof (CensusProof v),
      col_signature = Signature v, col_vote = Vote v, col_processID = pid\<rparr>"

definition returned_form :: "'pk VotePackage \<Rightarrow> 'pk VotePackage" where
  "returned_form v =
     \<lparr>Signature = copy (replicate 64 0) (Signature v),
      CensusProof = \<lparr>Index = Index (CensusProof v), PublicKey = PublicKey (CensusProof v),
                     Weight = Some (case Weight (CensusProof v) of None \<Rightarrow> 0 | Some w \<Rightarrow> \<bar>w\<bar>),
                     MerkleProof = MerkleProof (CensusProof v)\<rparr>,
      Vote = Vote v\<rparr>"

text \<open>A vote package with the weight that reads back for it.\<close>

definition weight_read_back :: "'pk VotePackage \<Rightarrow> 'pk VotePackage" where
  "weight_read_back v =
     v\<lparr>CensusProof := (CensusProof v)
          \<lparr>Weight := Some (case Weight (CensusProof v) of None \<Rightarrow> 0 | Some w \<Rightarrow> \<bar>w\<bar>)\<rparr>\<rparr>"

text \<open>Integrity of the table: every row carries the id built from its own columns, and
  references a process that exists (the foreign key).\<close>

definition votepackages_ok :: "('pk \<Rightarrow> bytes) \<Rightarrow> 'pk SQLite \<Rightarrow> bool" where
  "votepackages_ok Compress r =
     (\<forall>row \<in> set (votepackages r).
        votePackageID Compress (col_indx row) (col_publicKey row) (col_processID row)
          = Some (col_id row)
        \<and> col_processID row \<in> set (map ID (processes r)))"

section \<open>Sample values\<close>

definition demo_Compress :: "byte \<Rightarrow> bytes" where
  "demo_Compress k = replicate 32 k"

definition demo_process :: Process where
  "demo_process = \<lparr>ID = 1, CensusRoot = replicate 32 9, CensusSize = 100, EthBlockNum = 10,
     ResPubStartBlock = 20, ResPubWindow = 5, MinParticipation = 10, Type = 1,
     Status = ProcessStatusOn\<rparr>"

definition demo_db :: "byte SQLite" where
  "demo_db = \<lparr>dbClosed = False, processes = [demo_process], votepackages = [],
     lastSyncBlockNum = 0\<rparr>"

definition demo_vote :: "int option \<Rightarrow> u64 \<Rightarrow> byte VotePackage" where
  "demo_vote w i = \<lparr>Signature = replicate 64 1,
     CensusProof = \<lparr>Index = i, PublicKey = 7, Weight = w, MerkleProof = [4, 2]\<rparr>,
     Vote = [1]\<rparr>"

definition demo_calls :: "(u64 \<times> byte VotePackage) list" where
  "demo_calls = [(1, demo_vote None 5), (2, demo_vote None 1), (1, demo_vote (Some 2) 3),
                 (1, demo_vote (Some 9) 5)]"

definition demo_parsers :: parsers where
  "demo_parsers =
     \<lparr>parseEventNewProcess = (\<lambda>d. Inr \<lparr>np_ProcessID = 2, np_CensusRoot = take 32 d,
          np_CensusSize = 10, np_ResPubStartBlock = 30, np_ResPubWindow = 5,
          np_MinParticipation = 0, np_Type = 0\<rparr>),
      parseEventResultPublished = (\<lambda>d. Inr \<lparr>rp_ProcessID = 1, rp_Result = drop 32 d\<rparr>),
      parseEventProcessClosed = (\<lambda>d. Inr \<lparr>pc_ProcessID = 1\<rparr>)\<rparr>"

definition demo_client :: "byte Client" where
  "demo_client = \<lparr>db = demo_db, logged = []\<rparr>"

definition demo_log :: "nat \<Rightarrow> Log" where
  "demo_log n = \<lparr>BlockNumber = 12, Data = replicate n 0\<rparr>"





section \<open>Byte encodings\<close>

lemma length_le_bytes64: "length (le_bytes64 v) = 8"
  by (simp add: le_bytes64_def)

lemma le_bytes64_inj: "le_bytes64 v = le_bytes64 w \<Longrightarrow> v = w"
proof (rule bit_word_eqI)
  fix n assume eq: "le_bytes64 v = le_bytes64 w" and n: "n < LENGTH(64)"
  have b: "\<And>k. k \<in> {0,8,16,24,32,40,48,56} \<Longrightarrow> (ucast (drop_bit k v) :: byte) = ucast (drop_bit k w)"
    using eq by (auto simp: le_bytes64_def)
  define k where "k = 8 * (n div 8)"
  define j where "j = n mod 8"
  have kn: "n = k + j" "j < 8" by (simp_all add: k_def j_def)
  have "k \<in> {0,8,16,24,32,40,48,56}" using n unfolding k_def by auto
  then have "(ucast (drop_bit k v) :: byte) = ucast (drop_bit k w)" by (rule b)
  then have "bit (ucast (drop_bit k v) :: byte) j = bit (ucast (drop_bit k w) :: byte) j" by simp
  then show "bit v n = bit w n" using kn by (simp add: bit_simps add.commute)
qed

lemma length_pad32: "length (pad32 xs) = 32"
  by (simp add: pad32_def)

lemma pad32_id: "length xs = 32 \<Longrightarrow> pad32 xs = xs"
  by (simp add: pad32_def)

lemma votePackageID_eq:
  "votePackageID C i pk p = Some (le_bytes64 i @ pad32 (C pk) @ le_bytes64 p)"
proof -
  have s1: "PutUint64 (slice 0 48 (replicate 48 0)) i = Some (le_bytes64 i @ replicate 40 0)"
    by (simp add: PutUint64_def slice_def)
  have id1: "slice_upd 0 48 (replicate 48 0) (le_bytes64 i @ replicate 40 0) = le_bytes64 i @ replicate 40 0"
    by (simp add: slice_upd_def)
  have v: "slice 8 40 (le_bytes64 i @ replicate 40 (0::byte)) = replicate 32 0"
    by (simp add: slice_def length_le_bytes64)
  have c: "copy (replicate 32 (0::byte)) (C pk) = take 32 (C pk @ replicate 32 0)"
    by (simp add: copy_def min_def)
  have id2: "slice_upd 8 40 (le_bytes64 i @ replicate 40 0) (take 32 (C pk @ replicate 32 0))
      = le_bytes64 i @ take 32 (C pk @ replicate 32 0) @ replicate 8 0"
    by (simp add: slice_upd_def length_le_bytes64)
  have s3: "PutUint64 (slice 40 48 (le_bytes64 i @ take 32 (C pk @ replicate 32 0) @ replicate 8 0)) p
      = Some (le_bytes64 p)"
    by (simp add: PutUint64_def slice_def length_le_bytes64 min_def)
  have id3: "slice_upd 40 48 (le_bytes64 i @ take 32 (C pk @ replicate 32 0) @ replicate 8 0) (le_bytes64 p)
      = le_bytes64 i @ take 32 (C pk @ replicate 32 0) @ le_bytes64 p"
    by (simp add: slice_upd_def length_le_bytes64 min_def)
  show ?thesis
    unfolding pad32_def votePackageID_def Let_def s1 option.case id1 v c id2 s3 id3 ..
qed

section \<open>Storing and reading vote packages\<close>

lemma one_below_high_bit [simp]:
  "\<not> 9223372036854775808 \<le> (1::u64)" "(1::u64) < 9223372036854775808"
  by (simp_all add: word_le_nat_alt word_less_nat_alt)

lemma demo_vote_fields [simp]:
  "Index (CensusProof (demo_vote w i)) = i"
  "Weight (CensusProof (demo_vote w i)) = w"
  "length (Signature (demo_vote w i)) = 64"
  by (simp_all add: demo_vote_def)

lemma uint64_not_supported_neq [simp]:
  "uint64_not_supported n \<noteq> DriverError ''FOREIGN KEY constraint failed''"
  by (simp add: uint64_not_supported_def)

lemma StoreVotePackage_unfold:
  "StoreVotePackage C pid v r =
     (if dbClosed r then (Some (DriverError ''sql: database is closed''), r)
      else if 2 ^ 63 \<le> Index (CensusProof v) then (Some (uint64_not_supported ''2''), r)
      else if 2 ^ 63 \<le> pid then (Some (uint64_not_supported ''8''), r)
      else if col_id (votepackage_row_of C pid v) \<in> set (map col_id (votepackages r))
      then (Some (DriverError ''UNIQUE constraint failed: votepackages.id''), r)
      else if pid \<notin> set (map ID (processes r))
      then (Some (ErrProcessIDNotExist pid), r)
      else (None, r\<lparr>votepackages := votepackages r @ [votepackage_row_of C pid v]\<rparr>))"
  by (simp add: StoreVotePackage_def db_Prepare_def votePackageID_eq insert_votepackage_def
      stmt_Exec_def convert_uint64_def votepackage_row_of_def Let_def)

lemma nat_be_roundtrip: "foldl (\<lambda>acc b. acc * 256 + unat b) 0 (nat_be_bytes n) = n"
proof (induction n rule: nat_be_bytes.induct)
  case (1 n)
  show ?case
  proof (cases "n = 0")
    case True then show ?thesis by (simp add: nat_be_bytes.simps)
  next
    case False
    have "nat_be_bytes n = nat_be_bytes (n div 256) @ [of_nat (n mod 256)]"
      using False by (subst nat_be_bytes.simps) simp
    then show ?thesis using 1[OF False] by (simp add: unat_of_nat)
  qed
qed

lemma big_roundtrip: "big_SetBytes (big_Bytes x) = \<bar>x\<bar>"
  by (simp add: big_SetBytes_def big_Bytes_def nat_be_roundtrip)

lemma Index_scan: "(\<lambda>v. Index (CensusProof v)) \<circ> scan_votepackage = col_indx"
  by (rule ext) (simp add: scan_votepackage_def)

lemma scan_row_of: "scan_votepackage (votepackage_row_of C pid v) = returned_form v"
  by (simp add: scan_votepackage_def votepackage_row_of_def returned_form_def big_roundtrip split: option.splits)

lemma StoreVotePackage_cases:
  "StoreVotePackage C pid v r = (None, r\<lparr>votepackages := votepackages r @ [votepackage_row_of C pid v]\<rparr>)
   \<or> (\<exists>e. StoreVotePackage C pid v r = (Some e, r))"
  by (simp add: StoreVotePackage_unfold)

lemma store_all_rows:
  "votepackages (store_all C calls r)
     = votepackages r @ map (\<lambda>(p, v). votepackage_row_of C p v) (accepted C calls r)"
proof (induction calls arbitrary: r)
  case Nil
  then show ?case by simp
next
  case (Cons c calls)
  obtain p v where c: "c = (p, v)" by (cases c)
  show ?case
    using StoreVotePackage_cases [of C p v r] Cons.IH
    by (auto simp: c)
qed

lemma StoreVotePackage_frame:
  "dbClosed (snd (StoreVotePackage C pid v r)) = dbClosed r"
  "processes (snd (StoreVotePackage C pid v r)) = processes r"
  "lastSyncBlockNum (snd (StoreVotePackage C pid v r)) = lastSyncBlockNum r"
  by (simp_all add: StoreVotePackage_unfold)

lemma store_all_dbClosed: "dbClosed (store_all C calls r) = dbClosed r"
  by (induction C calls r rule: store_all.induct) (simp_all add: StoreVotePackage_frame)

lemma store_all_processes: "processes (store_all C calls r) = processes r"
  by (induction C calls r rule: store_all.induct) (simp_all add: StoreVotePackage_frame)

lemma store_all_lastSyncBlockNum: "lastSyncBlockNum (store_all C calls r) = lastSyncBlockNum r"
  by (induction C calls r rule: store_all.induct) (simp_all add: StoreVotePackage_frame)

lemma scan_rows_of:
  "map scan_votepackage (map (\<lambda>(p, v). votepackage_row_of C p v) xs)
     = map (\<lambda>(p, v). returned_form v) xs"
  by (induction xs) (auto simp: scan_row_of)

lemma filter_rows_of:
  "filter (\<lambda>row. col_processID row = pid) (map (\<lambda>(p, v). votepackage_row_of C p v) xs)
     = map (\<lambda>(p, v). votepackage_row_of C p v) (filter (\<lambda>(p, v). p = pid) xs)"
  by (induction xs) (auto simp: votepackage_row_of_def)

lemma Read_store_all:
  assumes "\<not> dbClosed r" "votepackages r = []" "pid < 2 ^ 63"
  shows "\<exists>vs. ReadVotePackagesByProcessID pid (store_all C calls r) = Inr vs
     \<and> sorted (map (\<lambda>v. Index (CensusProof v)) vs)
     \<and> mset vs = mset (map (\<lambda>(p, v). returned_form v) (filter (\<lambda>(p, v). p = pid) (accepted C calls r)))"
proof -
  let ?rows = "filter (\<lambda>row. col_processID row = pid) (votepackages (store_all C calls r))"
  let ?vs = "map scan_votepackage (sort_key col_indx ?rows)"
  have 1: "ReadVotePackagesByProcessID pid (store_all C calls r) = Inr ?vs"
    using assms(1,3)
    by (simp add: ReadVotePackagesByProcessID_def db_Prepare_def store_all_dbClosed
        select_votepackages_def convert_uint64_def)
  have 2: "sorted (map (\<lambda>v. Index (CensusProof v)) ?vs)"
    unfolding map_map Index_scan by (rule sorted_sort_key)
  have rows: "?rows = map (\<lambda>(p, v). votepackage_row_of C p v) (filter (\<lambda>(p, v). p = pid) (accepted C calls r))"
    unfolding store_all_rows assms(2) append_Nil by (rule filter_rows_of)
  have "mset ?vs = mset (map scan_votepackage ?rows)"
    by simp
  also have "\<dots> = mset (map (\<lambda>(p, v). returned_form v) (filter (\<lambda>(p, v). p = pid) (accepted C calls r)))"
    unfolding rows scan_rows_of ..
  finally have 3: "mset ?vs = mset (map (\<lambda>(p, v). returned_form v) (filter (\<lambda>(p, v). p = pid) (accepted C calls r)))" .
  from 1 2 3 show ?thesis by (intro exI [of _ ?vs] conjI)
qed

lemma accepted_low:
  "(p, v) \<in> set (accepted C calls r) \<Longrightarrow> p < 2 ^ 63 \<and> (p, v) \<in> set calls"
proof (induction calls arbitrary: r)
  case Nil
  then show ?case by simp
next
  case (Cons c calls)
  obtain q w where c: "c = (q, w)" by (cases c)
  show ?case
  proof (cases "fst (StoreVotePackage C q w r)")
    case None
    then have "q < 2 ^ 63" by (auto simp: StoreVotePackage_unfold split: if_splits)
    moreover have "(p, v) = (q, w) \<or> (p, v) \<in> set (accepted C calls (snd (StoreVotePackage C q w r)))"
      using Cons.prems None by (cases "StoreVotePackage C q w r") (auto simp: c)
    ultimately show ?thesis using Cons.IH c by auto
  next
    case (Some e)
    then have "(p, v) \<in> set (accepted C calls (snd (StoreVotePackage C q w r)))"
      using Cons.prems by (cases "StoreVotePackage C q w r") (auto simp: c)
    then show ?thesis using Cons.IH by auto
  qed
qed

lemma Read_high:
  assumes "\<not> dbClosed r" "2 ^ 63 \<le> pid"
  shows "ReadVotePackagesByProcessID pid (store_all C calls r) = Inl (uint64_not_supported ''1'')
     \<and> filter (\<lambda>(p, v). p = pid) (accepted C calls r) = []"
proof -
  have "\<forall>c \<in> set (accepted C calls r). \<not> (case c of (p, v) \<Rightarrow> p = pid)"
    using accepted_low [of _ _ C calls r] assms(2) by (auto simp: not_less [symmetric])
  then have "filter (\<lambda>(p, v). p = pid) (accepted C calls r) = []"
    by (simp add: filter_empty_conv)
  then show ?thesis
    using assms
    by (simp add: ReadVotePackagesByProcessID_def db_Prepare_def store_all_dbClosed
        convert_uint64_def)
qed

lemma returned_form_signature:
  "length (Signature v) = 64 \<Longrightarrow> returned_form v = weight_read_back v"
  by (simp add: returned_form_def weight_read_back_def copy_def)

lemma votePackageID_32:
  "length (C pk) = 32 \<Longrightarrow> votePackageID C i pk p = Some (le_bytes64 i @ C pk @ le_bytes64 p)"
  by (simp add: votePackageID_eq pad32_id)

text \<open>
  Claim C10. The record id that \<^verbatim>\<open>StoreVotePackage\<close> builds is always defined and 48
  bytes long, and it is injective: with the 32-byte compressed public keys that
  \<^verbatim>\<open>Compress\<close> returns, two ids are equal if and only if the census indices, the compressed
  keys and the process identifiers are equal.
\<close>

theorem votePackageID_injective:
  assumes "length (Compress k1) = 32" and "length (Compress k2) = 32"
  shows "(\<exists>b. votePackageID Compress i1 k1 p1 = Some b \<and> length b = 48) \<and>
         (votePackageID Compress i1 k1 p1 = votePackageID Compress i2 k2 p2
            \<longleftrightarrow> i1 = i2 \<and> Compress k1 = Compress k2 \<and> p1 = p2)"
proof -
  have e1: "votePackageID Compress i1 k1 p1 = Some (le_bytes64 i1 @ Compress k1 @ le_bytes64 p1)"
    using assms(1) by (rule votePackageID_32)
  have e2: "votePackageID Compress i2 k2 p2 = Some (le_bytes64 i2 @ Compress k2 @ le_bytes64 p2)"
    using assms(2) by (rule votePackageID_32)
  have len: "length (le_bytes64 i1 @ Compress k1 @ le_bytes64 p1) = 48"
    using assms(1) by (simp add: length_le_bytes64)
  have "le_bytes64 i1 @ Compress k1 @ le_bytes64 p1 = le_bytes64 i2 @ Compress k2 @ le_bytes64 p2
        \<longleftrightarrow> le_bytes64 i1 = le_bytes64 i2 \<and> Compress k1 = Compress k2 \<and> le_bytes64 p1 = le_bytes64 p2"
    using assms by (simp add: length_le_bytes64)
  also have "\<dots> \<longleftrightarrow> i1 = i2 \<and> Compress k1 = Compress k2 \<and> p1 = p2"
    using le_bytes64_inj by blast
  finally show ?thesis using len by (simp add: e1 e2)
qed

text \<open>Three ids that differ in exactly one component of the key.\<close>

theorem votePackageID_injective_witness:
  "length (demo_Compress 7) = 32 \<and> length (demo_Compress 8) = 32 \<and>
   votePackageID demo_Compress 3 7 1 \<noteq> votePackageID demo_Compress 3 8 1 \<and>
   votePackageID demo_Compress 3 7 1 \<noteq> votePackageID demo_Compress 3 7 2 \<and>
   votePackageID demo_Compress 3 7 1 \<noteq> votePackageID demo_Compress 4 7 1"
  using votePackageID_injective [of demo_Compress 7 8 3 1 3 1]
    votePackageID_injective [of demo_Compress 7 7 3 1 3 2]
    votePackageID_injective [of demo_Compress 7 7 3 1 4 1]
  by (simp add: demo_Compress_def)

lemma row_id_differs:
  assumes "votePackageID C (col_indx row) (col_publicKey row) (col_processID row) = Some (col_id row)"
    and "col_processID row \<noteq> pid"
  shows "col_id row \<noteq> col_id (votepackage_row_of C pid v)"
proof
  assume eq: "col_id row = col_id (votepackage_row_of C pid v)"
  have "col_id row = le_bytes64 (col_indx row) @ pad32 (C (col_publicKey row))
          @ le_bytes64 (col_processID row)"
    using assms(1) by (simp add: votePackageID_eq)
  with eq have "le_bytes64 (col_processID row) = le_bytes64 pid"
    by (simp add: votepackage_row_of_def length_le_bytes64 length_pad32)
  then show False using assms(2) le_bytes64_inj by blast
qed

text \<open>The table is intact when it is empty, and \<^verbatim>\<open>StoreVotePackage\<close> keeps it intact.\<close>

lemma votepackages_ok_empty: "votepackages r = [] \<Longrightarrow> votepackages_ok C r"
  by (simp add: votepackages_ok_def)

lemma StoreVotePackage_preserves_ok:
  "votepackages_ok C r \<Longrightarrow> votepackages_ok C (snd (StoreVotePackage C pid v r))"
  by (auto simp: votepackages_ok_def StoreVotePackage_unfold votePackageID_eq votepackage_row_of_def)

lemma store_all_preserves_ok:
  "votepackages_ok C r \<Longrightarrow> votepackages_ok C (store_all C calls r)"
  by (induction C calls r rule: store_all.induct) (simp_all add: StoreVotePackage_preserves_ok)

text \<open>
  Claim C5, as amended. On an open database whose table of vote packages is intact, a
  call of \<^verbatim>\<open>StoreVotePackage\<close> for a process identifier that has no process record
  persists nothing. When the census index and the process identifier are below \<open>2^63\<close>
  it fails with the error \<^verbatim>\<open>Can not store VotePackage, ProcessID=%d does not exist\<close>,
  which carries that process identifier; when one of them is \<open>2^63\<close> or more it fails
  with the argument-conversion error of \<^verbatim>\<open>database/sql\<close>, returned as it came.
\<close>

theorem StoreVotePackage_process_not_found:
  assumes "\<not> dbClosed r" and "votepackages_ok Compress r"
    and "processID \<notin> set (map ID (processes r))"
  shows "(Index (CensusProof vote) < 2 ^ 63 \<and> processID < 2 ^ 63 \<longrightarrow>
            StoreVotePackage Compress processID vote r
              = (Some (ErrProcessIDNotExist processID), r))
     \<and> (2 ^ 63 \<le> Index (CensusProof vote) \<longrightarrow>
            StoreVotePackage Compress processID vote r = (Some (uint64_not_supported ''2''), r))
     \<and> (Index (CensusProof vote) < 2 ^ 63 \<and> 2 ^ 63 \<le> processID \<longrightarrow>
            StoreVotePackage Compress processID vote r = (Some (uint64_not_supported ''8''), r))"
proof -
  have "col_id (votepackage_row_of Compress processID vote) \<notin> set (map col_id (votepackages r))"
  proof
    assume "col_id (votepackage_row_of Compress processID vote) \<in> set (map col_id (votepackages r))"
    then obtain row where row: "row \<in> set (votepackages r)"
      and eq: "col_id row = col_id (votepackage_row_of Compress processID vote)"
      by auto
    from row assms(2) have
      "votePackageID Compress (col_indx row) (col_publicKey row) (col_processID row) = Some (col_id row)"
      and "col_processID row \<in> set (map ID (processes r))"
      by (simp_all add: votepackages_ok_def)
    moreover from this(2) assms(3) have "col_processID row \<noteq> processID" by blast
    ultimately show False using row_id_differs eq by blast
  qed
  then show ?thesis using assms(1,3) by (auto simp: StoreVotePackage_unfold)
qed

text \<open>Process 2 does not exist in the sample database.\<close>

theorem StoreVotePackage_process_not_found_witness:
  "\<not> dbClosed demo_db \<and> votepackages_ok demo_Compress demo_db
   \<and> (2::u64) \<notin> set (map ID (processes demo_db))
   \<and> Index (CensusProof (demo_vote None 3)) < 2 ^ 63 \<and> (2::u64) < 2 ^ 63
   \<and> StoreVotePackage demo_Compress 2 (demo_vote None 3) demo_db
        = (Some (ErrProcessIDNotExist 2), demo_db)"
proof -
  have h1: "\<not> dbClosed demo_db" by (simp add: demo_db_def)
  have h2: "votepackages_ok demo_Compress demo_db" by (simp add: votepackages_ok_def demo_db_def)
  have h3: "(2::u64) \<notin> set (map ID (processes demo_db))" by (simp add: demo_db_def demo_process_def)
  have h4: "Index (CensusProof (demo_vote None 3)) < 2 ^ 63 \<and> (2::u64) < 2 ^ 63"
    by (simp add: demo_vote_def)
  show ?thesis
    using h1 h2 h3 h4 StoreVotePackage_process_not_found [OF h1 h2 h3, of "demo_vote None 3"]
    by simp
qed

text \<open>
  Claim C5 as stated fails for the process identifier \<open>2^63\<close>, which has no process
  record: the call fails with the conversion error of the eighth argument, a driver
  error returned as it came, not with the error that names the process identifier.
\<close>

theorem StoreVotePackage_process_not_found_counterexample:
  "\<not> dbClosed demo_db \<and> votepackages_ok demo_Compress demo_db
   \<and> (2 ^ 63 :: u64) \<notin> set (map ID (processes demo_db))
   \<and> StoreVotePackage demo_Compress (2 ^ 63) (demo_vote None 3) demo_db
        = (Some (DriverError
             ''sql: converting argument $8 type: uint64 values with high bit set are not supported''),
           demo_db)
   \<and> \<not> domain_specific (DriverError
             ''sql: converting argument $8 type: uint64 values with high bit set are not supported'')"
  by (simp add: StoreVotePackage_unfold uint64_not_supported_def votepackages_ok_def
      demo_db_def demo_process_def demo_vote_def)

lemma StoreVotePackage_ok_low:
  "StoreVotePackage C pid v r = (None, r1) \<Longrightarrow> Index (CensusProof v) < 2 ^ 63 \<and> pid < 2 ^ 63"
  by (auto simp: StoreVotePackage_unfold split: if_splits)

lemma StoreVotePackage_ok_rows:
  "StoreVotePackage C pid v r = (None, r1) \<Longrightarrow>
     votepackages r1 = votepackages r @ [votepackage_row_of C pid v] \<and> \<not> dbClosed r1"
  by (auto simp: StoreVotePackage_unfold split: if_splits)

text \<open>
  Claim C1, as amended. When a call of \<^verbatim>\<open>StoreVotePackage\<close> has stored a vote package,
  every later call for the same process identifier with the same census index and the
  same (compressed) public key, whatever calls were made in between, fails with the
  driver's own error \<^verbatim>\<open>UNIQUE constraint failed: votepackages.id\<close>, returned as it came,
  and leaves the database unchanged.
\<close>

theorem StoreVotePackage_duplicate:
  assumes "StoreVotePackage Compress processID v1 r = (None, r1)"
    and "Index (CensusProof v2) = Index (CensusProof v1)"
    and "Compress (PublicKey (CensusProof v2)) = Compress (PublicKey (CensusProof v1))"
  shows "StoreVotePackage Compress processID v2 (store_all Compress calls r1)
           = (Some (DriverError ''UNIQUE constraint failed: votepackages.id''),
              store_all Compress calls r1)"
proof -
  have "col_id (votepackage_row_of Compress processID v2) = col_id (votepackage_row_of Compress processID v1)"
    using assms(2,3) by (simp add: votepackage_row_of_def)
  moreover have "votepackage_row_of Compress processID v1 \<in> set (votepackages (store_all Compress calls r1))"
    using StoreVotePackage_ok_rows [OF assms(1)] by (simp add: store_all_rows)
  ultimately have "col_id (votepackage_row_of Compress processID v2)
      \<in> set (map col_id (votepackages (store_all Compress calls r1)))"
    by force
  moreover have "\<not> dbClosed (store_all Compress calls r1)"
    using StoreVotePackage_ok_rows [OF assms(1)] by (simp add: store_all_dbClosed)
  moreover have "\<not> 2 ^ 63 \<le> Index (CensusProof v2)" and "\<not> 2 ^ 63 \<le> processID"
    using StoreVotePackage_ok_low [OF assms(1)] assms(2) by (simp_all add: not_le)
  ultimately show ?thesis by (simp add: StoreVotePackage_unfold)
qed

text \<open>The same voter twice in process 1 of the sample database, with another weight.\<close>

theorem StoreVotePackage_duplicate_witness:
  "StoreVotePackage demo_Compress 1 (demo_vote None 3) demo_db
     = (None, demo_db\<lparr>votepackages := [votepackage_row_of demo_Compress 1 (demo_vote None 3)]\<rparr>)
   \<and> StoreVotePackage demo_Compress 1 (demo_vote (Some 2) 3)
        (demo_db\<lparr>votepackages := [votepackage_row_of demo_Compress 1 (demo_vote None 3)]\<rparr>)
     = (Some (DriverError ''UNIQUE constraint failed: votepackages.id''),
        demo_db\<lparr>votepackages := [votepackage_row_of demo_Compress 1 (demo_vote None 3)]\<rparr>)"
proof -
  have h: "StoreVotePackage demo_Compress 1 (demo_vote None 3) demo_db
     = (None, demo_db\<lparr>votepackages := [votepackage_row_of demo_Compress 1 (demo_vote None 3)]\<rparr>)"
    by (simp add: StoreVotePackage_unfold demo_db_def demo_process_def)
  show ?thesis
    using h StoreVotePackage_duplicate [OF h, of "demo_vote (Some 2) 3" "[]"]
    by (simp add: demo_vote_def)
qed

text \<open>
  Claim C1 as stated fails: the error of the second of two identical calls is the
  driver's error, not one built by this package.
\<close>

theorem StoreVotePackage_duplicate_counterexample:
  "fst (StoreVotePackage demo_Compress 1 (demo_vote None 3) demo_db) = None
   \<and> fst (StoreVotePackage demo_Compress 1 (demo_vote None 3)
           (snd (StoreVotePackage demo_Compress 1 (demo_vote None 3) demo_db)))
       = Some (DriverError ''UNIQUE constraint failed: votepackages.id'')
   \<and> \<not> domain_specific (DriverError ''UNIQUE constraint failed: votepackages.id'')"
  by (simp add: StoreVotePackage_unfold demo_db_def demo_process_def)

lemma returned_form_id:
  "length (Signature v) = 64 \<Longrightarrow> Weight (CensusProof v) = Some w \<Longrightarrow> 0 \<le> w \<Longrightarrow> returned_form v = v"
  by (simp add: returned_form_def copy_def)

lemma returned_form_demo: "returned_form (demo_vote w i) = demo_vote (Some (case w of None \<Rightarrow> 0 | Some x \<Rightarrow> \<bar>x\<bar>)) i"
  by (simp add: returned_form_def demo_vote_def copy_def)

lemma le_bytes64_eq_iff: "le_bytes64 v = le_bytes64 w \<longleftrightarrow> v = w"
  using le_bytes64_inj by blast

lemma demo_row_id_eq:
  "col_id (votepackage_row_of demo_Compress p (demo_vote w i)) = col_id (votepackage_row_of demo_Compress q (demo_vote x j))
     \<longleftrightarrow> i = j \<and> p = q"
  by (simp add: votepackage_row_of_def demo_vote_def length_le_bytes64 le_bytes64_eq_iff)

lemma demo_row_cols:
  "col_indx (votepackage_row_of C p v) = Index (CensusProof v)"
  "col_processID (votepackage_row_of C p v) = p"
  by (simp_all add: votepackage_row_of_def)

lemma demo_store_all:
  "store_all demo_Compress demo_calls demo_db
     = demo_db\<lparr>votepackages := [votepackage_row_of demo_Compress 1 (demo_vote None 5),
                                 votepackage_row_of demo_Compress 1 (demo_vote (Some 2) 3)]\<rparr>"
  by (simp add: demo_calls_def StoreVotePackage_unfold demo_db_def demo_process_def demo_row_id_eq)

lemma demo_accepted:
  "accepted demo_Compress demo_calls demo_db = [(1, demo_vote None 5), (1, demo_vote (Some 2) 3)]"
  by (simp add: demo_calls_def StoreVotePackage_unfold demo_db_def demo_process_def demo_row_id_eq)

lemma demo_read:
  "ReadVotePackagesByProcessID 1 (store_all demo_Compress demo_calls demo_db)
     = Inr [demo_vote (Some 2) 3, demo_vote (Some 0) 5]"
  unfolding demo_store_all
  by (simp add: ReadVotePackagesByProcessID_def db_Prepare_def demo_db_def convert_uint64_def
      select_votepackages_def demo_row_cols scan_row_of returned_form_demo)

lemma weight_read_back_demo:
  "weight_read_back (demo_vote w i) = demo_vote (Some (case w of None \<Rightarrow> 0 | Some x \<Rightarrow> \<bar>x\<bar>)) i"
  by (simp add: weight_read_back_def demo_vote_def)

lemma returned_as_read_back:
  "\<forall>(p, v) \<in> set xs. length (Signature v) = 64 \<Longrightarrow>
   map (\<lambda>(p, v). returned_form v) xs = map (\<lambda>(p, v). weight_read_back v) xs"
  by (induction xs) (auto simp: returned_form_signature)

text \<open>
  Claim C6, as amended. After any sequence of \<^verbatim>\<open>StoreVotePackage\<close> calls (with the
  64-byte signatures of the type) on an open database that started without vote
  packages: for a process identifier below \<open>2^63\<close>, \<^verbatim>\<open>ReadVotePackagesByProcessID\<close>
  returns a list sorted in ascending order of the census index that holds exactly the
  vote packages of the accepted calls for that process identifier, each once and with
  the weight that reads back for it (the absolute value of the stored weight, 0 for
  nil), and no others; for a process identifier of \<open>2^63\<close> or more, for which nothing
  can be stored, it returns the argument-conversion error of \<^verbatim>\<open>database/sql\<close>.
\<close>

theorem ReadVotePackagesByProcessID_sorted_exact:
  assumes "\<not> dbClosed r" and "votepackages r = []"
    and "\<forall>(p, v) \<in> set calls. length (Signature v) = 64"
  shows "(processID < 2 ^ 63 \<longrightarrow>
           (\<exists>vs. ReadVotePackagesByProcessID processID (store_all Compress calls r) = Inr vs
              \<and> sorted (map (\<lambda>v. Index (CensusProof v)) vs)
              \<and> mset vs = mset (map (\<lambda>(p, v). weight_read_back v)
                        (filter (\<lambda>(p, v). p = processID) (accepted Compress calls r)))))
     \<and> (2 ^ 63 \<le> processID \<longrightarrow>
           ReadVotePackagesByProcessID processID (store_all Compress calls r)
             = Inl (uint64_not_supported ''1'')
           \<and> filter (\<lambda>(p, v). p = processID) (accepted Compress calls r) = [])"
proof (intro conjI impI)
  assume low: "processID < 2 ^ 63"
  have "\<forall>(p, v) \<in> set (filter (\<lambda>(p, v). p = processID) (accepted Compress calls r)).
          length (Signature v) = 64"
    using assms(3) accepted_low [of _ _ Compress calls r] by auto
  then have eq: "map (\<lambda>(p, v). returned_form v)
               (filter (\<lambda>(p, v). p = processID) (accepted Compress calls r))
           = map (\<lambda>(p, v). weight_read_back v)
               (filter (\<lambda>(p, v). p = processID) (accepted Compress calls r))"
    by (rule returned_as_read_back)
  obtain vs where 1: "ReadVotePackagesByProcessID processID (store_all Compress calls r) = Inr vs"
    and 2: "sorted (map (\<lambda>v. Index (CensusProof v)) vs)"
    and 3: "mset vs = mset (map (\<lambda>(p, v). returned_form v)
                        (filter (\<lambda>(p, v). p = processID) (accepted Compress calls r)))"
    using Read_store_all [OF assms(1,2) low] by blast
  from 1 2 3 [unfolded eq]
  show "\<exists>vs. ReadVotePackagesByProcessID processID (store_all Compress calls r) = Inr vs
              \<and> sorted (map (\<lambda>v. Index (CensusProof v)) vs)
              \<and> mset vs = mset (map (\<lambda>(p, v). weight_read_back v)
                        (filter (\<lambda>(p, v). p = processID) (accepted Compress calls r)))"
    by (intro exI [of _ vs] conjI)
next
  assume "2 ^ 63 \<le> processID"
  then show "ReadVotePackagesByProcessID processID (store_all Compress calls r)
             = Inl (uint64_not_supported ''1'')"
    using Read_high [OF assms(1)] by blast
next
  assume "2 ^ 63 \<le> processID"
  then show "filter (\<lambda>(p, v). p = processID) (accepted Compress calls r) = []"
    using Read_high [OF assms(1)] by blast
qed

text \<open>Four calls on the sample database: one for a missing process, one duplicate.\<close>

theorem ReadVotePackagesByProcessID_sorted_exact_witness:
  "\<not> dbClosed demo_db \<and> votepackages demo_db = []
   \<and> map (\<lambda>(p, v). length (Signature v)) demo_calls = [64, 64, 64, 64]
   \<and> (1 :: u64) < 2 ^ 63
   \<and> ReadVotePackagesByProcessID 1 (store_all demo_Compress demo_calls demo_db)
       = Inr [demo_vote (Some 2) 3, demo_vote (Some 0) 5]
   \<and> sorted (map (\<lambda>v. Index (CensusProof v)) [demo_vote (Some 2) 3, demo_vote (Some 0) 5])
   \<and> mset [demo_vote (Some 2) 3, demo_vote (Some 0) 5]
       = mset (map (\<lambda>(p, v). weight_read_back v)
           (filter (\<lambda>(p, v). p = 1) (accepted demo_Compress demo_calls demo_db)))"
proof -
  have h1: "\<not> dbClosed demo_db" by (simp add: demo_db_def)
  have h2: "votepackages demo_db = []" by (simp add: demo_db_def)
  have h3: "\<forall>(p, v) \<in> set demo_calls. length (Signature v) = 64"
    by (simp add: demo_calls_def)
  have h4: "map (\<lambda>(p, v). length (Signature v)) demo_calls = [64, 64, 64, 64]"
    by (simp add: demo_calls_def)
  show ?thesis
    using h1 h2 h4
      ReadVotePackagesByProcessID_sorted_exact [OF h1 h2 h3, of 1 demo_Compress]
    by (simp add: demo_read)
qed

text \<open>
  Claim C6 as stated fails: a vote package stored with the weight - 7 is not among the
  vote packages returned for its process, which hold it with the weight 7; and for the
  process identifier \<open>2^63\<close> the call returns an error, not the (empty) list of the vote
  packages stored for it.
\<close>

theorem ReadVotePackagesByProcessID_counterexample:
  "fst (StoreVotePackage demo_Compress 1 (demo_vote (Some (- 7)) 3) demo_db) = None
   \<and> ReadVotePackagesByProcessID 1
        (snd (StoreVotePackage demo_Compress 1 (demo_vote (Some (- 7)) 3) demo_db))
       = Inr [demo_vote (Some 7) 3]
   \<and> demo_vote (Some 7) 3 \<noteq> demo_vote (Some (- 7)) 3
   \<and> ReadVotePackagesByProcessID (2 ^ 63) demo_db
       = Inl (DriverError
           ''sql: converting argument $1 type: uint64 values with high bit set are not supported'')"
  by (simp add: StoreVotePackage_unfold demo_db_def demo_process_def
      ReadVotePackagesByProcessID_def db_Prepare_def select_votepackages_def demo_row_cols
      scan_row_of returned_form_demo convert_uint64_def uint64_not_supported_def)
     (simp add: demo_vote_def)

lemma weights_of_returned:
  "map (\<lambda>v. (Index (CensusProof v), PublicKey (CensusProof v), Weight (CensusProof v)))
       (map (\<lambda>(p, v). returned_form v) xs)
   = map (\<lambda>(p, v). (Index (CensusProof v), PublicKey (CensusProof v),
                    Some (case Weight (CensusProof v) of None \<Rightarrow> 0 | Some w \<Rightarrow> \<bar>w\<bar>))) xs"
  by (induction xs) (auto simp: returned_form_def)

text \<open>
  Claim C7, as amended. Every vote package stored by \<^verbatim>\<open>StoreVotePackage\<close> is returned by
  \<^verbatim>\<open>ReadVotePackagesByProcessID\<close> with the absolute value of the weight it was stored
  with, hence with the same weight when that is not negative, and with weight 0 when
  the weight was nil. (Vote packages are stored, and read, for the process identifiers
  below \<open>2^63\<close>; for the others nothing is stored and the read fails.)
\<close>

theorem weight_stored_then_read:
  assumes "\<not> dbClosed r" and "votepackages r = []"
  shows "(processID < 2 ^ 63 \<longrightarrow>
          (\<exists>vs. ReadVotePackagesByProcessID processID (store_all Compress calls r) = Inr vs
             \<and> mset (map (\<lambda>v. (Index (CensusProof v), PublicKey (CensusProof v),
                                Weight (CensusProof v))) vs)
               = mset (map (\<lambda>(p, v). (Index (CensusProof v), PublicKey (CensusProof v),
                       Some (case Weight (CensusProof v) of None \<Rightarrow> 0 | Some w \<Rightarrow> \<bar>w\<bar>)))
                (filter (\<lambda>(p, v). p = processID) (accepted Compress calls r)))))
     \<and> (2 ^ 63 \<le> processID \<longrightarrow>
           ReadVotePackagesByProcessID processID (store_all Compress calls r)
             = Inl (uint64_not_supported ''1'')
           \<and> filter (\<lambda>(p, v). p = processID) (accepted Compress calls r) = [])"
proof (intro conjI impI)
  assume low: "processID < 2 ^ 63"
  obtain vs where 1: "ReadVotePackagesByProcessID processID (store_all Compress calls r) = Inr vs"
    and 2: "mset vs = mset (map (\<lambda>(p, v). returned_form v)
                        (filter (\<lambda>(p, v). p = processID) (accepted Compress calls r)))"
    using Read_store_all [OF assms low] by blast
  let ?f = "\<lambda>v. (Index (CensusProof v), PublicKey (CensusProof v), Weight (CensusProof v))"
  have "mset (map ?f vs) = image_mset ?f (mset vs)" by (simp only: mset_map)
  also have "\<dots> = mset (map ?f (map (\<lambda>(p, v). returned_form v)
                        (filter (\<lambda>(p, v). p = processID) (accepted Compress calls r))))"
    unfolding 2 by (simp only: mset_map)
  finally have "mset (map ?f vs)
      = mset (map (\<lambda>(p, v). (Index (CensusProof v), PublicKey (CensusProof v),
                       Some (case Weight (CensusProof v) of None \<Rightarrow> 0 | Some w \<Rightarrow> \<bar>w\<bar>)))
                (filter (\<lambda>(p, v). p = processID) (accepted Compress calls r)))"
    unfolding weights_of_returned .
  with 1 show "\<exists>vs. ReadVotePackagesByProcessID processID (store_all Compress calls r) = Inr vs
             \<and> mset (map ?f vs)
               = mset (map (\<lambda>(p, v). (Index (CensusProof v), PublicKey (CensusProof v),
                       Some (case Weight (CensusProof v) of None \<Rightarrow> 0 | Some w \<Rightarrow> \<bar>w\<bar>)))
                (filter (\<lambda>(p, v). p = processID) (accepted Compress calls r)))"
    by (intro exI [of _ vs] conjI)
next
  assume "2 ^ 63 \<le> processID"
  then show "ReadVotePackagesByProcessID processID (store_all Compress calls r)
             = Inl (uint64_not_supported ''1'')"
    using Read_high [OF assms(1)] by blast
next
  assume "2 ^ 63 \<le> processID"
  then show "filter (\<lambda>(p, v). p = processID) (accepted Compress calls r) = []"
    using Read_high [OF assms(1)] by blast
qed

text \<open>The vote package stored with a nil weight reads back with weight 0.\<close>

theorem weight_stored_then_read_witness:
  "\<not> dbClosed demo_db \<and> votepackages demo_db = [] \<and> (1 :: u64) < 2 ^ 63
   \<and> ReadVotePackagesByProcessID 1 (store_all demo_Compress demo_calls demo_db)
       = Inr [demo_vote (Some 2) 3, demo_vote (Some 0) 5]
   \<and> accepted demo_Compress demo_calls demo_db = [(1, demo_vote None 5), (1, demo_vote (Some 2) 3)]"
proof -
  have h1: "\<not> dbClosed demo_db" by (simp add: demo_db_def)
  have h2: "votepackages demo_db = []" by (simp add: demo_db_def)
  show ?thesis
    using h1 h2 weight_stored_then_read [OF h1 h2, of 1 demo_Compress demo_calls]
    by (simp add: demo_read demo_accepted)
qed

text \<open>
  Claim C7 as stated fails on a negative weight: \<^verbatim>\<open>Bytes()\<close> drops the sign, and the
  weight - 5 reads back as 5.
\<close>

theorem weight_negative_counterexample:
  "fst (StoreVotePackage demo_Compress 1 (demo_vote (Some (- 5)) 3) demo_db) = None
   \<and> ReadVotePackagesByProcessID 1
        (snd (StoreVotePackage demo_Compress 1 (demo_vote (Some (- 5)) 3) demo_db))
       = Inr [demo_vote (Some 5) 3]
   \<and> Weight (CensusProof (demo_vote (Some (- 5)) 3)) \<noteq> Weight (CensusProof (demo_vote (Some 5) 3))"
  by (simp add: StoreVotePackage_unfold demo_db_def demo_process_def
      ReadVotePackagesByProcessID_def db_Prepare_def select_votepackages_def demo_row_cols
      scan_row_of returned_form_demo convert_uint64_def)

section \<open>Applying event logs\<close>

lemma db_write_line [simp]: "db (write_line l c) = db c"
  by (simp add: write_line_def)

lemma processEventLog_default:
  assumes "length (Data eventLog) \<noteq> 288" and "length (Data eventLog) \<noteq> 160"
    and "length (Data eventLog) \<noteq> 96"
  shows "processEventLog P eventLog c =
           (Some (ErrUnrecognizedEventLog (length (Data eventLog))),
            write_line (Stdout (BlockNumber eventLog) (Data eventLog)) c)"
  using assms
  by (simp add: processEventLog_def eventNewProcessLen_def eventResultPublishedLen_def
      eventProcessClosedLen_def)

text \<open>
  Claim C2. For an event log whose payload is not 288, 160 or 96 bytes long,
  \<^verbatim>\<open>processEventLog\<close> returns the unrecognized-event error, which carries that length; it
  only prints the block number and the payload, so the database is unchanged, whatever
  its state; and both loops around it, the backfill loop of \<^verbatim>\<open>syncEventsHistory\<close> and the
  live loop of \<^verbatim>\<open>syncEventsLive\<close>, write the error to the log and go on with the event logs
  that follow.
\<close>

theorem processEventLog_unrecognized:
  assumes "length (Data eventLog) \<noteq> 288" and "length (Data eventLog) \<noteq> 160"
    and "length (Data eventLog) \<noteq> 96"
  shows "processEventLog P eventLog c =
           (Some (ErrUnrecognizedEventLog (length (Data eventLog))),
            write_line (Stdout (BlockNumber eventLog) (Data eventLog)) c)
     \<and> db (snd (processEventLog P eventLog c)) = db c
     \<and> syncEventsHistory_loop P (eventLog # logs) c =
         syncEventsHistory_loop P logs
           (write_line (LogError (ErrUnrecognizedEventLog (length (Data eventLog))))
              (write_line (Stdout (BlockNumber eventLog) (Data eventLog)) c))
     \<and> syncEventsLive_loop P (Msg eventLog # msgs) c =
         syncEventsLive_loop P msgs
           (write_line (LogError (ErrUnrecognizedEventLog (length (Data eventLog))))
              (write_line (Stdout (BlockNumber eventLog) (Data eventLog)) c))"
  by (simp add: processEventLog_default [OF assms] syncEventsLive_step_def)

text \<open>A payload of 64 bytes, followed in the backfill by a process-closed event that is
  still applied.\<close>

theorem processEventLog_unrecognized_witness:
  "length (Data (demo_log 64)) \<noteq> 288 \<and> length (Data (demo_log 64)) \<noteq> 160
   \<and> length (Data (demo_log 64)) \<noteq> 96
   \<and> processEventLog demo_parsers (demo_log 64) demo_client =
        (Some (ErrUnrecognizedEventLog 64),
         \<lparr>db = demo_db, logged = [Stdout 12 (replicate 64 0)]\<rparr>)
   \<and> db (syncEventsHistory_loop demo_parsers [demo_log 64, demo_log 96] demo_client)
       = demo_db\<lparr>processes := [demo_process\<lparr>Status := ProcessStatusContractClosed\<rparr>]\<rparr>"
proof -
  have h1: "length (Data (demo_log 64)) \<noteq> 288" by (simp add: demo_log_def)
  have h2: "length (Data (demo_log 64)) \<noteq> 160" by (simp add: demo_log_def)
  have h3: "length (Data (demo_log 64)) \<noteq> 96" by (simp add: demo_log_def)
  have "db (syncEventsHistory_loop demo_parsers [demo_log 96]
            (write_line (LogError (ErrUnrecognizedEventLog (length (Data (demo_log 64)))))
              (write_line (Stdout (BlockNumber (demo_log 64)) (Data (demo_log 64))) demo_client)))
       = demo_db\<lparr>processes := [demo_process\<lparr>Status := ProcessStatusContractClosed\<rparr>]\<rparr>"
    by (simp add: processEventLog_def eventNewProcessLen_def eventResultPublishedLen_def
      eventProcessClosedLen_def demo_log_def demo_parsers_def demo_client_def
      UpdateProcessStatus_def db_Prepare_def demo_db_def demo_process_def write_line_def)
  then show ?thesis
    using h1 h2 h3
      processEventLog_unrecognized [OF h1 h2 h3, of demo_parsers demo_client "[demo_log 96]" "[]"]
    by (simp add: demo_log_def demo_client_def write_line_def)
qed

text \<open>
  Claim C4. For a payload of 160 bytes that decodes as a published result,
  \<^verbatim>\<open>processEventLog\<close> returns nil and writes one debug line with the block number and the
  event; the database is unchanged. No hypothesis is made on the database: the result is
  nil on a closed handle too, where every call of the store would fail.
\<close>

theorem processEventLog_ResultPublished:
  assumes "length (Data eventLog) = 160"
    and "parseEventResultPublished P (Data eventLog) = Inr e"
  shows "processEventLog P eventLog c =
           (None, write_line (LogDebugEvent (BlockNumber eventLog) (ResultPublished e)) c)
     \<and> db (snd (processEventLog P eventLog c)) = db c"
  using assms
  by (simp add: processEventLog_def eventNewProcessLen_def eventResultPublishedLen_def)

text \<open>On a closed database the published result is still decoded and logged.\<close>

theorem processEventLog_ResultPublished_witness:
  "length (Data (demo_log 160)) = 160
   \<and> parseEventResultPublished demo_parsers (Data (demo_log 160))
       = Inr \<lparr>rp_ProcessID = 1, rp_Result = replicate 128 0\<rparr>
   \<and> processEventLog demo_parsers (demo_log 160) (demo_client\<lparr>db := demo_db\<lparr>dbClosed := True\<rparr>\<rparr>) =
        (None, \<lparr>db = demo_db\<lparr>dbClosed := True\<rparr>,
                logged = [LogDebugEvent 12
                   (ResultPublished \<lparr>rp_ProcessID = 1, rp_Result = replicate 128 0\<rparr>)]\<rparr>)"
proof -
  have h1: "length (Data (demo_log 160)) = 160" by (simp add: demo_log_def)
  have h2: "parseEventResultPublished demo_parsers (Data (demo_log 160))
       = Inr \<lparr>rp_ProcessID = 1, rp_Result = replicate 128 0\<rparr>"
    by (simp add: demo_log_def demo_parsers_def)
  show ?thesis
    using h1 h2 processEventLog_ResultPublished [OF h1 h2, of "demo_client\<lparr>db := demo_db\<lparr>dbClosed := True\<rparr>\<rparr>"]
    by (simp add: demo_log_def demo_client_def write_line_def)
qed

lemma find_map_status:
  "find (\<lambda>p. ID p = pid) (map (\<lambda>p. if ID p = q then p\<lparr>Status := s\<rparr> else p) ps)
     = map_option (\<lambda>p. if ID p = q then p\<lparr>Status := s\<rparr> else p) (find (\<lambda>p. ID p = pid) ps)"
  by (induction ps) auto

lemma process_status_Update:
  "\<not> dbClosed r \<Longrightarrow>
   process_status (snd (UpdateProcessStatus q s r)) pid =
     (if pid = q then map_option (\<lambda>_. s) (process_status r pid) else process_status r pid)"
proof -
  assume "\<not> dbClosed r"
  have "find (\<lambda>p. ID p = pid) (processes r) = Some p \<Longrightarrow> ID p = pid" for p
    by (auto simp: find_Some_iff)
  then show ?thesis using \<open>\<not> dbClosed r\<close>
    by (cases "find (\<lambda>p. ID p = pid) (processes r)")
       (auto simp: process_status_def UpdateProcessStatus_def db_Prepare_def find_map_status)
qed

text \<open>
  Claim C3. For a payload of 96 bytes that decodes as a process-closed event for an
  existing process, on an open database, \<^verbatim>\<open>processEventLog\<close> returns nil and the status
  of that process is \<^verbatim>\<open>ProcessStatusContractClosed\<close> afterwards, whatever its status \<open>s\<close>
  was before; the status of every other process is as it was.
\<close>

theorem processEventLog_ProcessClosed:
  assumes "length (Data eventLog) = 96"
    and "parseEventProcessClosed P (Data eventLog) = Inr e"
    and "\<not> dbClosed (db c)"
    and "process_status (db c) (pc_ProcessID e) = Some s"
  shows "fst (processEventLog P eventLog c) = None
     \<and> process_status (db (snd (processEventLog P eventLog c))) (pc_ProcessID e)
         = Some ProcessStatusContractClosed
     \<and> (\<forall>pid. pid \<noteq> pc_ProcessID e \<longrightarrow>
           process_status (db (snd (processEventLog P eventLog c))) pid
             = process_status (db c) pid)"
proof -
  let ?c1 = "write_line (LogDebugEvent (BlockNumber eventLog) (ProcessClosed e)) c"
  let ?u = "UpdateProcessStatus (pc_ProcessID e) ProcessStatusContractClosed (db c)"
  have u: "fst ?u = None" using assms(3) by (simp add: UpdateProcessStatus_def db_Prepare_def)
  have p: "processEventLog P eventLog c = (None, ?c1\<lparr>db := snd ?u\<rparr>)"
    using assms(1,2) u
    by (cases ?u) (simp add: processEventLog_def eventNewProcessLen_def eventResultPublishedLen_def
        eventProcessClosedLen_def)
  show ?thesis
    using assms(3,4) by (simp add: p process_status_Update)
qed

text \<open>Process 1 of the sample database, closed while its status is On.\<close>

theorem processEventLog_ProcessClosed_witness:
  "length (Data (demo_log 96)) = 96
   \<and> parseEventProcessClosed demo_parsers (Data (demo_log 96)) = Inr \<lparr>pc_ProcessID = 1\<rparr>
   \<and> \<not> dbClosed (db demo_client)
   \<and> process_status (db demo_client) 1 = Some ProcessStatusOn
   \<and> fst (processEventLog demo_parsers (demo_log 96) demo_client) = None
   \<and> process_status (db (snd (processEventLog demo_parsers (demo_log 96) demo_client))) 1
       = Some ProcessStatusContractClosed"
proof -
  have h1: "length (Data (demo_log 96)) = 96" by (simp add: demo_log_def)
  have h2: "parseEventProcessClosed demo_parsers (Data (demo_log 96)) = Inr \<lparr>pc_ProcessID = 1\<rparr>"
    by (simp add: demo_parsers_def)
  have h3: "\<not> dbClosed (db demo_client)" by (simp add: demo_client_def demo_db_def)
  have h4: "process_status (db demo_client) (pc_ProcessID \<lparr>pc_ProcessID = 1\<rparr>) = Some ProcessStatusOn"
    by (simp add: demo_client_def demo_db_def demo_process_def process_status_def)
  show ?thesis
    using h1 h2 h3 h4 processEventLog_ProcessClosed [OF h1 h2 h3 h4]
    by simp
qed

section \<open>The synchronization checkpoint\<close>

lemma unchanged_refl [simp]: "unchanged_checkpoint c c"
  by (simp add: unchanged_checkpoint_def)

lemma unchanged_write_line [simp]:
  "unchanged_checkpoint c (write_line l c') = unchanged_checkpoint c c'"
  by (simp add: unchanged_checkpoint_def)

lemma unchanged_trans:
  "unchanged_checkpoint a b \<Longrightarrow> unchanged_checkpoint b c \<Longrightarrow> unchanged_checkpoint a c"
  by (simp add: unchanged_checkpoint_def)















lemma sync_run_append:
  "sync_run P upd (as @ bs) c = sync_run P upd bs (sync_run P upd as c)"
  by (induction as arbitrary: c) simp_all


text \<open>The loops of the source are runs of the actions of an execution.\<close>

lemma syncBlocksLive_loop_run:
  "syncBlocksLive_loop upd msgs c = sync_run P upd (map BlockHeader msgs) c"
  by (induction msgs arbitrary: c) simp_all

lemma syncEventsLive_loop_run:
  "syncEventsLive_loop P msgs c = sync_run P upd (map EventLog msgs) c"
  by (induction msgs arbitrary: c) simp_all

lemma syncEventsHistory_loop_run:
  "syncEventsHistory_loop P logs c = sync_run P upd (map BackfillLog logs) c"
  by (induction logs arbitrary: c) (simp_all split: prod.splits option.splits)

lemma syncHistory_run:
  assumes "HeaderByNumber = Inr header"
    and "FilterLogs (sint startBlock) (Number header) = Inr logs"
  shows "snd (syncHistory P HeaderByNumber FilterLogs startBlock c) =
           sync_run P upd (map BackfillLog logs @ [BackfillFroze (big_Uint64 (Number header))])
             (write_line (LogDebugSyncHistory startBlock (Number header)) c)"
  using assms
  by (simp add: syncHistory_def syncEventsHistory_def
      syncEventsHistory_loop_run [symmetric, where upd = upd] sync_run_append Let_def)




section \<open>The snapshot of a census\<close>










end
